theory Spec2Isabelle
  imports Complex_Main "HOL-Library.AList"
begin

section \<open>Data model: pandas frames as ordered dictionaries of columns\<close>

text \<open>
  A table cell as pandas holds it after \<open>read_csv\<close>: an integer, a string, or a missing
  value (NaN / \<open>pd.NA\<close>, which DuckDB scans as SQL NULL).
\<close>

datatype cell = IntC int | StrC string | NA

text \<open>
  A DataFrame is an insertion-ordered dictionary from column name to column values, with a
  default \<open>RangeIndex\<close> of \<open>nrows\<close> labels \<open>0 .. nrows - 1\<close>. \<open>read_csv\<close> makes
  the column names distinct and every column as long as the index; \<open>frame_ok\<close> records that.
\<close>

record frame =
  nrows :: nat
  cols :: "(string \<times> cell list) list"

definition columns :: "frame \<Rightarrow> string list" where
  "columns df = map fst (cols df)"

definition frame_ok :: "frame \<Rightarrow> bool" where
  "frame_ok df = (distinct (columns df) \<and> list_all (\<lambda>p. length (snd p) = nrows df) (cols df))"

datatype error = BinderError string | ConversionError string | KeyError string

definition ebind :: "'e + 'a \<Rightarrow> ('a \<Rightarrow> 'e + 'b) \<Rightarrow> 'e + 'b" where
  "ebind m f = (case m of Inl e \<Rightarrow> Inl e | Inr x \<Rightarrow> f x)"

subsection \<open>The pandas operations the script uses\<close>

text \<open>\<open>df[c] = values\<close>: an existing column is replaced in place, a new one is appended.\<close>

definition setitem :: "frame \<Rightarrow> string \<Rightarrow> cell list \<Rightarrow> frame" where
  "setitem df c xs = df\<lparr>cols := AList.update c xs (cols df)\<rparr>"

text \<open>\<open>df[c] = scalar\<close> broadcasts the scalar over the index.\<close>

definition setitem_scalar :: "frame \<Rightarrow> string \<Rightarrow> cell \<Rightarrow> frame" where
  "setitem_scalar df c v = setitem df c (replicate (nrows df) v)"

text \<open>\<open>df[c]\<close> raises \<open>KeyError\<close> on a missing column.\<close>

definition getitem :: "frame \<Rightarrow> string \<Rightarrow> error + cell list" where
  "getitem df c = (case map_of (cols df) c of None \<Rightarrow> Inl (KeyError c) | Some xs \<Rightarrow> Inr xs)"

text \<open>
  \<open>df.loc[ids, c] = v\<close>: every label of \<open>ids\<close> must be in the index (else \<open>KeyError\<close>);
  the rows with these labels get \<open>v\<close> in column \<open>c\<close>. On a missing column pandas adds it,
  missing elsewhere.
\<close>

definition loc_setitem :: "frame \<Rightarrow> int list \<Rightarrow> string \<Rightarrow> cell \<Rightarrow> error + frame" where
  "loc_setitem df ids c v =
     (if list_all (\<lambda>i. 0 \<le> i \<and> i < int (nrows df)) ids
      then let xs = (case map_of (cols df) c of None \<Rightarrow> replicate (nrows df) NA | Some xs \<Rightarrow> xs)
           in Inr (setitem df c (map (\<lambda>(i, x). if int i \<in> set ids then v else x) (enumerate 0 xs)))
      else Inl (KeyError c))"

text \<open>\<open>df.drop(columns=[c])\<close> raises \<open>KeyError\<close> on a missing column.\<close>

definition drop_column :: "frame \<Rightarrow> string \<Rightarrow> error + frame" where
  "drop_column df c =
     (if c \<in> set (columns df) then Inr (df\<lparr>cols := AList.delete c (cols df)\<rparr>)
      else Inl (KeyError c))"

text \<open>\<open>add_row_ids\<close>: \<open>df["rowid"] = range(len(df))\<close>.\<close>

definition add_row_ids :: "frame \<Rightarrow> frame" where
  "add_row_ids df = setitem df ''rowid'' (map (\<lambda>i. IntC (int i)) [0..<nrows df])"

section \<open>The DuckDB queries\<close>

text \<open>
  DuckDB scans a registered frame when a query runs; the queries name only columns that the
  script does not assign after the registration. A column the query names must exist (else a
  binder error). \<open>Start\<close> and \<open>End\<close> are the integer columns of the documented input
  format: the model rejects any other cell there, and it rejects an empty \<open>Start\<close> or
  \<open>End\<close> column (a header-only file gives pandas columns without an integer type), so
  that no statement below is about an empty collection. Integers are unbounded: genome
  coordinates are far from the 64-bit range, where DuckDB raises rather than wraps.
  \<open>SampleID\<close>, \<open>Chr\<close>, \<open>Type\<close> and \<open>Gene_ID\<close> are only compared for equality and
  stay cells; as the script's documentation asks, a column has the same type in both files.
\<close>

definition column :: "frame \<Rightarrow> string \<Rightarrow> error + cell list" where
  "column df c = (case map_of (cols df) c of None \<Rightarrow> Inl (BinderError c) | Some xs \<Rightarrow> Inr xs)"

fun int_cells :: "string \<Rightarrow> cell list \<Rightarrow> error + int list" where
  "int_cells c [] = Inr []"
| "int_cells c (IntC n # xs) = ebind (int_cells c xs) (\<lambda>ns. Inr (n # ns))"
| "int_cells c (_ # xs) = Inl (ConversionError c)"

definition int_column :: "frame \<Rightarrow> string \<Rightarrow> error + int list" where
  "int_column df c = ebind (column df c) (int_cells c)"

definition data_int_column :: "frame \<Rightarrow> string \<Rightarrow> error + int list" where
  "data_int_column df c =
     ebind (column df c) (\<lambda>xs. if xs = [] then Inl (ConversionError c) else int_cells c xs)"

record cnv =
  rowid :: int
  SampleID :: cell
  Chr :: cell
  Start :: int
  End :: int
  Type :: cell

definition scan_cnv :: "frame \<Rightarrow> error + cnv list" where
  "scan_cnv df =
     ebind (int_column df ''rowid'') (\<lambda>ids.
     ebind (column df ''SampleID'') (\<lambda>ss.
     ebind (column df ''Chr'') (\<lambda>cs.
     ebind (data_int_column df ''Start'') (\<lambda>sts.
     ebind (data_int_column df ''End'') (\<lambda>ens.
     ebind (column df ''Type'') (\<lambda>ts.
       Inr (map (\<lambda>i. \<lparr>rowid = ids ! i, SampleID = ss ! i, Chr = cs ! i,
                       Start = sts ! i, End = ens ! i, Type = ts ! i\<rparr>)
                [0..<nrows df])))))))"

text \<open>
  SQL equality in a join condition: the pair is kept only when the comparison is TRUE, and a
  comparison with NULL is NULL.
\<close>

definition sql_eq :: "cell \<Rightarrow> cell \<Rightarrow> bool" where
  "sql_eq x y = (x \<noteq> NA \<and> y \<noteq> NA \<and> x = y)"

subsection \<open>\<open>flag_overlaps\<close>\<close>

definition overlap_start :: "cnv \<Rightarrow> cnv \<Rightarrow> int" where
  "overlap_start a b = max (Start a) (Start b)"

definition overlap_end :: "cnv \<Rightarrow> cnv \<Rightarrow> int" where
  "overlap_end a b = min (End a) (End b)"

definition overlap_len :: "cnv \<Rightarrow> cnv \<Rightarrow> int" where
  "overlap_len a b = min (End a) (End b) - max (Start a) (Start b)"

definition len :: "cnv \<Rightarrow> int" where
  "len a = End a - Start a"

text \<open>The \<open>ON\<close> clause of the join.\<close>

definition join_on :: "cnv \<Rightarrow> cnv \<Rightarrow> bool" where
  "join_on a b =
     (sql_eq (Chr a) (Chr b) \<and> sql_eq (SampleID a) (SampleID b) \<and> sql_eq (Type a) (Type b)
      \<and> End a > Start b \<and> Start a < End b)"

text \<open>\<open>CAST((overlap_len >= 0.5 * len_a AND overlap_len >= 0.5 * len_b) AS INTEGER)\<close>.\<close>

definition reciprocal_overlap_flag :: "cnv \<Rightarrow> cnv \<Rightarrow> int" where
  "reciprocal_overlap_flag a b =
     (if real_of_int (overlap_len a b) \<ge> 0.5 * real_of_int (len a)
         \<and> real_of_int (overlap_len a b) \<ge> 0.5 * real_of_int (len b)
      then 1 else 0)"

text \<open>The result rows \<open>(id_a, id_b, reciprocal_overlap_flag)\<close> of the query.\<close>

definition overlaps_query :: "cnv list \<Rightarrow> cnv list \<Rightarrow> (int \<times> int \<times> int) list" where
  "overlaps_query A B =
     [(rowid a, rowid b, reciprocal_overlap_flag a b).
        a \<leftarrow> A, b \<leftarrow> B, join_on a b, overlap_len a b > 0]"

definition flag_overlaps :: "frame \<Rightarrow> frame \<Rightarrow> error + (int \<times> int \<times> int) list" where
  "flag_overlaps df_a df_b =
     ebind (scan_cnv df_a) (\<lambda>A. ebind (scan_cnv df_b) (\<lambda>B. Inr (overlaps_query A B)))"

subsection \<open>\<open>flag_gene_matches\<close>\<close>

record gene_row =
  g_rowid :: int
  g_SampleID :: cell
  g_Type :: cell
  g_Gene_ID :: cell

definition scan_gene :: "frame \<Rightarrow> error + gene_row list" where
  "scan_gene df =
     ebind (int_column df ''rowid'') (\<lambda>ids.
     ebind (column df ''SampleID'') (\<lambda>ss.
     ebind (column df ''Type'') (\<lambda>ts.
     ebind (column df ''Gene_ID'') (\<lambda>gs.
       Inr (map (\<lambda>i. \<lparr>g_rowid = ids ! i, g_SampleID = ss ! i, g_Type = ts ! i,
                       g_Gene_ID = gs ! i\<rparr>)
                [0..<nrows df])))))"

definition gene_on :: "gene_row \<Rightarrow> gene_row \<Rightarrow> bool" where
  "gene_on a b =
     (sql_eq (g_SampleID a) (g_SampleID b) \<and> sql_eq (g_Type a) (g_Type b)
      \<and> sql_eq (g_Gene_ID a) (g_Gene_ID b))"

text \<open>
  The \<open>LEFT JOIN\<close>: one result row per matching row of the other table, or a single row
  with a NULL right side; the flag is 1 when the right \<open>rowid\<close> is not NULL.
\<close>

definition gene_query :: "gene_row list \<Rightarrow> gene_row list \<Rightarrow> (int \<times> int) list" where
  "gene_query A B =
     concat (map (\<lambda>a. case filter (gene_on a) B of
                          [] \<Rightarrow> [(g_rowid a, 0)]
                        | ms \<Rightarrow> map (\<lambda>b. (g_rowid a, 1)) ms) A)"

definition flag_gene_matches :: "frame \<Rightarrow> frame \<Rightarrow> error + (int \<times> int) list" where
  "flag_gene_matches table_a table_b =
     ebind (scan_gene table_a) (\<lambda>A. ebind (scan_gene table_b) (\<lambda>B. Inr (gene_query A B)))"

section \<open>\<open>print_summary\<close> and \<open>main\<close>\<close>

text \<open>
  What the script prints. A percentage line carries the count and the total it is computed
  from; the floating-point formatting itself is not modelled.
\<close>

datatype event =
    Info string
  | SummaryHeader
  | TotalLine string nat
  | CnvOverlap int nat
  | GeneOverlap int nat
  | BothOverlap int nat

text \<open>\<open>Series.sum()\<close> skips missing values.\<close>

fun cell_sum :: "cell list \<Rightarrow> int" where
  "cell_sum [] = 0"
| "cell_sum (IntC n # xs) = n + cell_sum xs"
| "cell_sum (_ # xs) = cell_sum xs"

definition notna_any :: "cell list \<Rightarrow> bool" where
  "notna_any xs = list_ex (\<lambda>x. x \<noteq> NA) xs"

definition both_count :: "cell list \<Rightarrow> cell list \<Rightarrow> int" where
  "both_count xs ys = int (length (filter (\<lambda>(x, y). x = IntC 1 \<and> y = IntC 1) (zip xs ys)))"

definition summary_of :: "string \<Rightarrow> frame \<Rightarrow> error + event list" where
  "summary_of name df =
     ebind (getitem df ''CNV_based_overlap'') (\<lambda>cnvs.
     ebind (getitem df ''gene_based_overlap'') (\<lambda>genes.
       let total = nrows df;
           ovlp = cell_sum cnvs;
           gene = (if notna_any genes then cell_sum genes else 0);
           both = (if notna_any genes then both_count cnvs genes else 0)
       in Inr ([TotalLine name total, CnvOverlap ovlp total]
               @ (if notna_any genes then [GeneOverlap gene total, BothOverlap both total]
                  else []))))"

definition print_summary :: "frame \<Rightarrow> frame \<Rightarrow> string \<Rightarrow> string \<Rightarrow> error + event list" where
  "print_summary df_a df_b name_a name_b =
     ebind (summary_of name_a df_a) (\<lambda>ea.
     ebind (summary_of name_b df_b) (\<lambda>eb. Inr (SummaryHeader # ea @ eb)))"

text \<open>The ids of the result rows whose flag is 1.\<close>

definition hits_a :: "(int \<times> int \<times> int) list \<Rightarrow> int list" where
  "hits_a overlaps_df = remdups (map fst (filter (\<lambda>t. snd (snd t) = 1) overlaps_df))"

definition hits_b :: "(int \<times> int \<times> int) list \<Rightarrow> int list" where
  "hits_b overlaps_df = remdups (map (\<lambda>t. fst (snd t)) (filter (\<lambda>t. snd (snd t) = 1) overlaps_df))"

definition gene_hits :: "(int \<times> int) list \<Rightarrow> int list" where
  "gene_hits gene_flag = map fst (filter (\<lambda>t. snd t = 1) gene_flag)"

text \<open>The \<open>if "Gene_ID" in df_a.columns and "Gene_ID" in df_b.columns\<close> block.\<close>

definition gene_step :: "frame \<Rightarrow> frame \<Rightarrow> error + (frame \<times> frame \<times> event list)" where
  "gene_step df_a df_b =
     (if ''Gene_ID'' \<in> set (columns df_a) \<and> ''Gene_ID'' \<in> set (columns df_b) then
        ebind (flag_gene_matches df_a df_b) (\<lambda>gene_flag_a.
        ebind (loc_setitem (setitem_scalar df_a ''gene_based_overlap'' (IntC 0))
                 (gene_hits gene_flag_a) ''gene_based_overlap'' (IntC 1)) (\<lambda>df_a'.
        ebind (flag_gene_matches df_b df_a') (\<lambda>gene_flag_b.
        ebind (loc_setitem (setitem_scalar df_b ''gene_based_overlap'' (IntC 0))
                 (gene_hits gene_flag_b) ''gene_based_overlap'' (IntC 1)) (\<lambda>df_b'.
          Inr (df_a', df_b', [Info ''Checking gene overlaps ...''])))))
      else
        Inr (setitem_scalar df_a ''gene_based_overlap'' NA,
             setitem_scalar df_b ''gene_based_overlap'' NA,
             [Info ''Skipping gene overlap check (Gene_ID column missing in one or both files)'']))"

record run =
  out_a :: frame
  out_b :: frame
  stdout :: "event list"

definition main :: "frame \<Rightarrow> frame \<Rightarrow> error + run" where
  "main file_a file_b =
     (let df_a = add_row_ids file_a; df_b = add_row_ids file_b in
      ebind (flag_overlaps df_a df_b) (\<lambda>overlaps_df.
      ebind (loc_setitem (setitem_scalar df_a ''CNV_based_overlap'' (IntC 0))
               (hits_a overlaps_df) ''CNV_based_overlap'' (IntC 1)) (\<lambda>df_a.
      ebind (loc_setitem (setitem_scalar df_b ''CNV_based_overlap'' (IntC 0))
               (hits_b overlaps_df) ''CNV_based_overlap'' (IntC 1)) (\<lambda>df_b.
      ebind (gene_step df_a df_b) (\<lambda>(df_a, df_b, gene_log).
      ebind (print_summary df_a df_b ''File A'' ''File B'') (\<lambda>summary.
      ebind (drop_column df_a ''rowid'') (\<lambda>res_a.
      ebind (drop_column df_b ''rowid'') (\<lambda>res_b.
        Inr \<lparr>out_a = res_a, out_b = res_b,
             stdout = [Info ''Computing reciprocal overlaps >= 50% ...''] @ gene_log
                      @ summary @ [Info ''Saving results'', Info ''Done.'']\<rparr>))))))))"

text \<open>The cell of column \<open>c\<close> in row \<open>i\<close>, when the column exists.\<close>

definition cell_at :: "frame \<Rightarrow> string \<Rightarrow> nat \<Rightarrow> cell option" where
  "cell_at df c i = map_option (\<lambda>xs. xs ! i) (map_of (cols df) c)"

section \<open>The partition key of the specification\<close>

text \<open>
  The derived tuple \<open>(SampleID, Chr, Type)\<close>. A record that lacks a component has no key,
  so it shares a key with no record.
\<close>

definition partition_key :: "cnv \<Rightarrow> (cell \<times> cell \<times> cell) option" where
  "partition_key r =
     (if SampleID r = NA \<or> Chr r = NA \<or> Type r = NA then None
      else Some (SampleID r, Chr r, Type r))"

definition share_key :: "cnv \<Rightarrow> cnv \<Rightarrow> bool" where
  "share_key a b = (partition_key a \<noteq> None \<and> partition_key a = partition_key b)"

section \<open>Example collections\<close>

text \<open>One record \<open>(S1, chr1, 100, 200, DEL)\<close>.\<close>

definition ex_a :: frame where
  "ex_a = \<lparr>nrows = 1, cols = [(''SampleID'', [StrC ''S1'']), (''Chr'', [StrC ''chr1'']),
      (''Start'', [IntC 100]), (''End'', [IntC 200]), (''Type'', [StrC ''DEL''])]\<rparr>"


text \<open>Two partners of \<open>ex_a\<close>'s record: \<open>[150, 300)\<close> does not qualify, \<open>[90, 210)\<close> does.\<close>

definition ex_b2 :: frame where
  "ex_b2 = \<lparr>nrows = 2, cols = [(''SampleID'', [StrC ''S1'', StrC ''S1'']),
      (''Chr'', [StrC ''chr1'', StrC ''chr1'']),
      (''Start'', [IntC 150, IntC 90]), (''End'', [IntC 300, IntC 210]),
      (''Type'', [StrC ''DEL'', StrC ''DEL''])]\<rparr>"

text \<open>A record with \<open>End < Start\<close> that would otherwise match \<open>ex_a\<close>.\<close>

definition ex_bad :: frame where
  "ex_bad = \<lparr>nrows = 1, cols = [(''SampleID'', [StrC ''S1'']), (''Chr'', [StrC ''chr1'']),
      (''Start'', [IntC 200]), (''End'', [IntC 100]), (''Type'', [StrC ''DEL''])]\<rparr>"




section \<open>The inheritance script: one \<open>bedtools intersect\<close> run per overlap fraction\<close>

text \<open>
  Lines 171 to 207 of \<open>cnv_trio_inheritance.py\<close>. The script uses an overlap fraction only
  through its text in an f-string (the command line, the file name, the column name), so a
  fraction is modelled by that text. \<open>bedtools intersect -a child -b parents -f ovlap -r -wa\<close>
  is an external program and a parameter of the model; it prints rows of the child file, and
  the shell redirection writes them to \<open>intersect_ovlap<fraction>.bed\<close>. The files are an
  association list from file name to rows. \<open>pl.read_csv\<close> raises \<open>NoDataError\<close> on a
  file without data and \<open>FileNotFoundError\<close> on a missing one. The flag columns that
  \<open>with_columns\<close> adds are an association list from column name to values, where an equal
  name replaces the column.
\<close>

record bed_row =
  bChr :: string
  bStart :: int
  bEnd :: int
  bRest :: "string list"

definition digit_char :: "nat \<Rightarrow> char" where
  "digit_char d = char_of (48 + d)"

fun str_nat :: "nat \<Rightarrow> string" where
  "str_nat n = (if n < 10 then [digit_char n] else str_nat (n div 10) @ [digit_char (n mod 10)])"

declare str_nat.simps [simp del]

definition str_int :: "int \<Rightarrow> string" where
  "str_int i = (if i < 0 then CHR ''-'' # str_nat (nat (- i)) else str_nat (nat i))"

definition ID :: "bed_row \<Rightarrow> string" where
  "ID r = bChr r @ ''_'' @ str_int (bStart r) @ ''_'' @ str_int (bEnd r)"

definition intersect_file :: "string \<Rightarrow> string" where
  "intersect_file ovlap = ''intersect_ovlap'' @ ovlap @ ''.bed''"

definition flag_name :: "string \<Rightarrow> string" where
  "flag_name ovlap = ''observed_in_parent_ovlap'' @ ovlap"

type_synonym bedtools = "string \<Rightarrow> bed_row list \<Rightarrow> bed_row list \<Rightarrow> bed_row list"

type_synonym files = "(string \<times> bed_row list) list"

datatype pl_error = FileNotFoundError string | NoDataError string

definition read_csv :: "files \<Rightarrow> string \<Rightarrow> pl_error + bed_row list" where
  "read_csv fs name =
     (case map_of fs name of
        None \<Rightarrow> Inl (FileNotFoundError name)
      | Some rows \<Rightarrow> if rows = [] then Inl (NoDataError name) else Inr rows)"

definition run_intersects :: "bedtools \<Rightarrow> string list \<Rightarrow> files \<Rightarrow> files" where
  "run_intersects bt OVERLAPS fs =
     fold (\<lambda>ovlap fs'. AList.update (intersect_file ovlap)
             (bt ovlap (the (map_of fs ''child_cnv.bed'')) (the (map_of fs ''parents_cnv.bed''))) fs')
       OVERLAPS fs"

fun annotate ::
  "files \<Rightarrow> bed_row list \<Rightarrow> string list \<Rightarrow> (string \<times> bool list) list
     \<Rightarrow> pl_error + (string \<times> bool list) list" where
  "annotate fs child_cnv [] tbl = Inr tbl"
| "annotate fs child_cnv (ovlap # rest) tbl =
     (case read_csv fs (intersect_file ovlap) of
        Inl e \<Rightarrow> Inl e
      | Inr result \<Rightarrow>
          annotate fs child_cnv rest
            (AList.update (flag_name ovlap)
               (map (\<lambda>c. ID c \<in> set (map ID result)) child_cnv) tbl))"

definition inheritance_flags ::
  "bedtools \<Rightarrow> string list \<Rightarrow> bed_row list \<Rightarrow> bed_row list
     \<Rightarrow> pl_error + (string \<times> bool list) list" where
  "inheritance_flags bt OVERLAPS child_bed parent_bed =
     (let fs = run_intersects bt OVERLAPS
                 [(''child_cnv.bed'', child_bed), (''parents_cnv.bed'', parent_bed)]
      in case read_csv fs ''child_cnv.bed'' of
           Inl e \<Rightarrow> Inl e
         | Inr child_cnv \<Rightarrow> annotate fs child_cnv OVERLAPS [])"

text \<open>
  A stand-in for \<open>bedtools intersect -f f -r -wa\<close> in the examples: a child row is
  reported once for every parent row of the same chromosome label whose overlap with it is
  positive and at least the fraction of both lengths. The example files are the pair
  \<open>[100, 200)\<close>, \<open>[150, 300)\<close>: overlap 50, reported at 0.1 and not at 0.5.
\<close>

definition bed_overlap :: "bed_row \<Rightarrow> bed_row \<Rightarrow> int" where
  "bed_overlap a b = min (bEnd a) (bEnd b) - max (bStart a) (bStart b)"

definition reciprocal_hits :: "real \<Rightarrow> bed_row list \<Rightarrow> bed_row list \<Rightarrow> bed_row list" where
  "reciprocal_hits f A B =
     [a. a \<leftarrow> A, b \<leftarrow> B, bChr a = bChr b, 0 < bed_overlap a b,
         f * real_of_int (bEnd a - bStart a) \<le> real_of_int (bed_overlap a b),
         f * real_of_int (bEnd b - bStart b) \<le> real_of_int (bed_overlap a b)]"

definition ex_bt :: bedtools where
  "ex_bt ovlap = reciprocal_hits (if ovlap = ''0.5'' then 0.5 else if ovlap = ''0.1'' then 0.1 else 1)"

definition ex_child :: "bed_row list" where
  "ex_child = [\<lparr>bChr = ''S1_chr1'', bStart = 100, bEnd = 200, bRest = []\<rparr>]"

definition ex_parents :: "bed_row list" where
  "ex_parents = [\<lparr>bChr = ''S1_chr1'', bStart = 150, bEnd = 300, bRest = []\<rparr>]"

section \<open>Auxiliary facts\<close>

lemma ebind_Inr_iff: "(ebind m f = Inr y) = (\<exists>x. m = Inr x \<and> f x = Inr y)"
  by (cases m) (simp_all add: ebind_def)

lemma ebind_simps [simp]: "ebind (Inr x) f = f x" "ebind (Inl e) f = Inl e"
  by (simp_all add: ebind_def)

lemma lookup_setitem:
  "map_of (cols (setitem df c xs)) c' = (if c' = c then Some xs else map_of (cols df) c')"
  by (simp add: setitem_def update_conv')

lemma nrows_setitem [simp]: "nrows (setitem df c xs) = nrows df"
  by (simp add: setitem_def)

lemma columns_setitem:
  "columns (setitem df c xs) = (if c \<in> set (columns df) then columns df else columns df @ [c])"
  by (simp add: setitem_def columns_def update_keys)

lemma lookup_setitem_scalar:
  "map_of (cols (setitem_scalar df c v)) c' =
     (if c' = c then Some (replicate (nrows df) v) else map_of (cols df) c')"
  by (simp add: setitem_scalar_def lookup_setitem)

lemma nrows_setitem_scalar [simp]: "nrows (setitem_scalar df c v) = nrows df"
  by (simp add: setitem_scalar_def)

lemma columns_setitem_scalar:
  "columns (setitem_scalar df c v) = (if c \<in> set (columns df) then columns df else columns df @ [c])"
  by (simp add: setitem_scalar_def columns_setitem)

lemma loc_setitem_Inr:
  assumes "loc_setitem df ids c v = Inr df'"
  shows "nrows df' = nrows df"
    and "columns df' = (if c \<in> set (columns df) then columns df else columns df @ [c])"
    and "c' \<noteq> c \<Longrightarrow> map_of (cols df') c' = map_of (cols df) c'"
    and "map_of (cols df) c = Some xs \<Longrightarrow>
           map_of (cols df') c = Some (map (\<lambda>(i, x). if int i \<in> set ids then v else x) (enumerate 0 xs))"
  using assms
  by (auto simp: loc_setitem_def Let_def lookup_setitem columns_setitem split: if_splits)

lemma loc_setitem_ok:
  "list_all (\<lambda>i. 0 \<le> i \<and> i < int (nrows df)) ids \<Longrightarrow> \<exists>df'. loc_setitem df ids c v = Inr df'"
  by (simp add: loc_setitem_def Let_def)

lemma drop_column_Inr:
  assumes "drop_column df c = Inr df'"
  shows "nrows df' = nrows df"
    and "columns df' = removeAll c (columns df)"
    and "c' \<noteq> c \<Longrightarrow> map_of (cols df') c' = map_of (cols df) c'"
    and "map_of (cols df') c = None"
  using assms
  by (auto simp: drop_column_def columns_def delete_keys delete_conv' split: if_splits)

lemma drop_column_ok: "c \<in> set (columns df) \<Longrightarrow> \<exists>df'. drop_column df c = Inr df'"
  by (simp add: drop_column_def)

lemma in_columns_iff: "c \<in> set (columns df) \<longleftrightarrow> map_of (cols df) c \<noteq> None"
  by (simp add: columns_def map_of_eq_None_iff)

lemma int_cells_IntC: "int_cells c (map IntC ns) = Inr ns"
  by (induction ns) simp_all

lemma int_cells_Inr: "int_cells c xs = Inr ns \<Longrightarrow> xs = map IntC ns"
proof (induction c xs arbitrary: ns rule: int_cells.induct)
  case (2 c n xs)
  then show ?case by (auto simp: ebind_Inr_iff)
qed simp_all

lemma column_Inr_iff: "column df c = Inr xs \<longleftrightarrow> map_of (cols df) c = Some xs"
  by (simp add: column_def split: option.splits)

lemma int_column_Inr_iff: "int_column df c = Inr ns \<longleftrightarrow> map_of (cols df) c = Some (map IntC ns)"
  by (auto simp: int_column_def ebind_Inr_iff column_Inr_iff int_cells_IntC dest: int_cells_Inr)

lemma data_int_column_Inr_iff:
  "data_int_column df c = Inr ns \<longleftrightarrow> ns \<noteq> [] \<and> map_of (cols df) c = Some (map IntC ns)"
proof (cases "map_of (cols df) c")
  case None
  then show ?thesis by (simp add: data_int_column_def column_def)
next
  case (Some xs)
  show ?thesis
  proof
    assume "data_int_column df c = Inr ns"
    with Some have "xs \<noteq> []" and "int_cells c xs = Inr ns"
      by (simp_all add: data_int_column_def column_def split: if_splits)
    then show "ns \<noteq> [] \<and> map_of (cols df) c = Some (map IntC ns)"
      using Some int_cells_Inr [of c xs ns] by auto
  next
    assume "ns \<noteq> [] \<and> map_of (cols df) c = Some (map IntC ns)"
    then show "data_int_column df c = Inr ns"
      by (simp add: data_int_column_def column_def int_cells_IntC)
  qed
qed

lemma rowid_add_row_ids:
  "map_of (cols (add_row_ids df)) c = (if c = ''rowid'' then Some (map IntC (map int [0..<nrows df])) else map_of (cols df) c)"
  by (simp add: add_row_ids_def lookup_setitem)

lemma nrows_add_row_ids [simp]: "nrows (add_row_ids df) = nrows df"
  by (simp add: add_row_ids_def)

lemma in_overlaps_query:
  "(i, j, fl) \<in> set (overlaps_query A B) \<longleftrightarrow>
     (\<exists>a\<in>set A. \<exists>b\<in>set B. i = rowid a \<and> j = rowid b \<and> fl = reciprocal_overlap_flag a b
        \<and> join_on a b \<and> 0 < overlap_len a b)"
  by (auto simp: overlaps_query_def)

lemma join_on_iff:
  "join_on a b \<and> 0 < overlap_len a b \<longleftrightarrow> share_key a b \<and> 0 < overlap_len a b"
  by (auto simp: join_on_def share_key_def partition_key_def sql_eq_def overlap_len_def split: if_splits)

lemma in_overlaps_query_spec:
  "(i, j, fl) \<in> set (overlaps_query A B) \<longleftrightarrow>
     (\<exists>a\<in>set A. \<exists>b\<in>set B. rowid a = i \<and> rowid b = j \<and> share_key a b
        \<and> 0 < overlap_len a b \<and> fl = reciprocal_overlap_flag a b)"
  unfolding in_overlaps_query using join_on_iff by blast

lemma share_key_sym: "share_key a b = share_key b a"
  by (auto simp: share_key_def partition_key_def split: if_splits)

lemma overlap_len_sym: "overlap_len a b = overlap_len b a"
  by (simp add: overlap_len_def min.commute max.commute)

lemma flag_sym: "reciprocal_overlap_flag a b = reciprocal_overlap_flag b a"
  by (auto simp: reciprocal_overlap_flag_def overlap_len_sym)


lemma overlaps_query_Cons:
  "overlaps_query (a # A) B = overlaps_query [a] B @ overlaps_query A B"
  by (simp add: overlaps_query_def)



lemma scan_cnv_InrD:
  assumes "scan_cnv df = Inr A"
  shows "\<exists>ids ss cs sts ens ts.
        map_of (cols df) ''rowid'' = Some (map IntC ids) \<and>
        map_of (cols df) ''SampleID'' = Some ss \<and>
        map_of (cols df) ''Chr'' = Some cs \<and>
        map_of (cols df) ''Start'' = Some (map IntC sts) \<and>
        map_of (cols df) ''End'' = Some (map IntC ens) \<and>
        map_of (cols df) ''Type'' = Some ts \<and>
        A = map (\<lambda>i. \<lparr>rowid = ids ! i, SampleID = ss ! i, Chr = cs ! i,
                       Start = sts ! i, End = ens ! i, Type = ts ! i\<rparr>) [0..<nrows df]"
  using assms
  unfolding scan_cnv_def ebind_Inr_iff int_column_Inr_iff data_int_column_Inr_iff
    column_Inr_iff sum.inject
  by (elim exE conjE) (intro exI conjI, (assumption | rule sym)+)

lemma map_IntC_inj: "map IntC xs = map IntC ys \<longleftrightarrow> xs = ys"
  by (rule inj_map_eq_map) (simp add: inj_def)

lemma scan_cnv_rows:
  assumes "scan_cnv (add_row_ids df) = Inr A"
  shows "length A = nrows df" and "i < nrows df \<Longrightarrow> rowid (A ! i) = int i"
proof -
  from assms obtain ids ss cs sts ens ts where
    ids: "map_of (cols (add_row_ids df)) ''rowid'' = Some (map IntC ids)" and
    A: "A = map (\<lambda>i. \<lparr>rowid = ids ! i, SampleID = ss ! i, Chr = cs ! i,
                       Start = sts ! i, End = ens ! i, Type = ts ! i\<rparr>) [0..<nrows (add_row_ids df)]"
    using scan_cnv_InrD by blast
  from ids have "map IntC ids = map IntC (map int [0..<nrows df])"
    by (simp add: rowid_add_row_ids)
  then have ids_eq: "ids = map int [0..<nrows df]"
    by (simp only: map_IntC_inj)
  show "length A = nrows df" by (simp add: A)
  show "i < nrows df \<Longrightarrow> rowid (A ! i) = int i" by (simp add: A ids_eq)
qed

lemma scan_cnv_rowid_inj:
  assumes "scan_cnv (add_row_ids df) = Inr A" and "a \<in> set A" and "rowid a = int i" and "i < nrows df"
  shows "a = A ! i"
proof -
  from assms(2) obtain k where k: "k < length A" "a = A ! k" by (auto simp: in_set_conv_nth)
  with scan_cnv_rows [OF assms(1)] have "rowid a = int k" by simp
  with assms(3) k show ?thesis by simp
qed

lemma scan_cnv_rowid_range:
  assumes "scan_cnv (add_row_ids df) = Inr A" and "a \<in> set A"
  shows "0 \<le> rowid a \<and> rowid a < int (nrows df)"
proof -
  from assms(2) obtain k where k: "k < length A" "a = A ! k" by (auto simp: in_set_conv_nth)
  with scan_cnv_rows [OF assms(1)] show ?thesis by simp
qed

text \<open>
  On a frame as \<open>read_csv\<close> gives it, record \<open>i\<close> of a scan holds the cells of row
  \<open>i\<close> of the input.
\<close>

lemma frame_ok_length:
  "frame_ok df \<Longrightarrow> map_of (cols df) c = Some xs \<Longrightarrow> length xs = nrows df"
proof -
  assume ok: "frame_ok df" and m: "map_of (cols df) c = Some xs"
  from m have "(c, xs) \<in> set (cols df)" by (rule map_of_SomeD)
  with ok show ?thesis by (force simp: frame_ok_def list_all_iff)
qed

lemma scan_cnv_record:
  assumes "scan_cnv (add_row_ids df) = Inr A" and "frame_ok df" and "i < nrows df"
  shows "cell_at df ''SampleID'' i = Some (SampleID (A ! i))"
    and "cell_at df ''Chr'' i = Some (Chr (A ! i))"
    and "cell_at df ''Start'' i = Some (IntC (Start (A ! i)))"
    and "cell_at df ''End'' i = Some (IntC (End (A ! i)))"
    and "cell_at df ''Type'' i = Some (Type (A ! i))"
proof -
  from scan_cnv_InrD [OF assms(1)] obtain ids ss cs sts ens ts where
    c: "map_of (cols (add_row_ids df)) ''SampleID'' = Some ss"
       "map_of (cols (add_row_ids df)) ''Chr'' = Some cs"
       "map_of (cols (add_row_ids df)) ''Start'' = Some (map IntC sts)"
       "map_of (cols (add_row_ids df)) ''End'' = Some (map IntC ens)"
       "map_of (cols (add_row_ids df)) ''Type'' = Some ts" and
    A: "A = map (\<lambda>i. \<lparr>rowid = ids ! i, SampleID = ss ! i, Chr = cs ! i,
                       Start = sts ! i, End = ens ! i, Type = ts ! i\<rparr>) [0..<nrows (add_row_ids df)]"
    by blast
  from c have c': "map_of (cols df) ''SampleID'' = Some ss" "map_of (cols df) ''Chr'' = Some cs"
    "map_of (cols df) ''Start'' = Some (map IntC sts)" "map_of (cols df) ''End'' = Some (map IntC ens)"
    "map_of (cols df) ''Type'' = Some ts"
    by (simp_all add: rowid_add_row_ids)
  have len: "length sts = nrows df" "length ens = nrows df"
    using frame_ok_length [OF assms(2) c'(3)] frame_ok_length [OF assms(2) c'(4)] by simp_all
  show "cell_at df ''SampleID'' i = Some (SampleID (A ! i))"
    and "cell_at df ''Chr'' i = Some (Chr (A ! i))"
    and "cell_at df ''Start'' i = Some (IntC (Start (A ! i)))"
    and "cell_at df ''End'' i = Some (IntC (End (A ! i)))"
    and "cell_at df ''Type'' i = Some (Type (A ! i))"
    using assms(3) len by (simp_all add: cell_at_def c' A)
qed

lemma in_hits_a:
  "i \<in> set (hits_a rows) \<longleftrightarrow> (\<exists>j. (i, j, 1) \<in> set rows)"
  by (force simp: hits_a_def)

lemma in_hits_b:
  "j \<in> set (hits_b rows) \<longleftrightarrow> (\<exists>i. (i, j, 1) \<in> set rows)"
  by (force simp: hits_b_def)

lemma hits_a_range:
  assumes "scan_cnv (add_row_ids df) = Inr A"
  shows "list_all (\<lambda>i. 0 \<le> i \<and> i < int (nrows df)) (hits_a (overlaps_query A B))"
  using scan_cnv_rowid_range [OF assms]
  by (auto simp: list_all_iff in_hits_a in_overlaps_query)

lemma hits_b_range:
  assumes "scan_cnv (add_row_ids df) = Inr B"
  shows "list_all (\<lambda>i. 0 \<le> i \<and> i < int (nrows df)) (hits_b (overlaps_query A B))"
  using scan_cnv_rowid_range [OF assms]
  by (auto simp: list_all_iff in_hits_b in_overlaps_query)

lemma hit_a_iff:
  assumes "scan_cnv (add_row_ids df) = Inr A" and "i < nrows df"
  shows "int i \<in> set (hits_a (overlaps_query A B)) \<longleftrightarrow>
           (\<exists>b\<in>set B. share_key (A ! i) b \<and> 0 < overlap_len (A ! i) b
                        \<and> reciprocal_overlap_flag (A ! i) b = 1)"
proof
  assume "int i \<in> set (hits_a (overlaps_query A B))"
  then obtain a b where ab: "a \<in> set A" "b \<in> set B" "rowid a = int i" "share_key a b"
      "0 < overlap_len a b" "reciprocal_overlap_flag a b = 1"
    by (auto simp: in_hits_a in_overlaps_query_spec)
  from scan_cnv_rowid_inj [OF assms(1) ab(1) ab(3) assms(2)] ab
  show "\<exists>b\<in>set B. share_key (A ! i) b \<and> 0 < overlap_len (A ! i) b
                        \<and> reciprocal_overlap_flag (A ! i) b = 1" by blast
next
  assume "\<exists>b\<in>set B. share_key (A ! i) b \<and> 0 < overlap_len (A ! i) b
                        \<and> reciprocal_overlap_flag (A ! i) b = 1"
  moreover have "A ! i \<in> set A" "rowid (A ! i) = int i"
    using scan_cnv_rows [OF assms(1)] assms(2) by simp_all
  ultimately show "int i \<in> set (hits_a (overlaps_query A B))"
    unfolding in_hits_a in_overlaps_query_spec by metis
qed

lemma hit_b_iff:
  assumes "scan_cnv (add_row_ids df) = Inr B" and "j < nrows df"
  shows "int j \<in> set (hits_b (overlaps_query A B)) \<longleftrightarrow>
           (\<exists>a\<in>set A. share_key a (B ! j) \<and> 0 < overlap_len a (B ! j)
                        \<and> reciprocal_overlap_flag a (B ! j) = 1)"
proof
  assume "int j \<in> set (hits_b (overlaps_query A B))"
  then obtain a b where ab: "a \<in> set A" "b \<in> set B" "rowid b = int j" "share_key a b"
      "0 < overlap_len a b" "reciprocal_overlap_flag a b = 1"
    by (auto simp: in_hits_b in_overlaps_query_spec)
  from scan_cnv_rowid_inj [OF assms(1) ab(2) ab(3) assms(2)] ab
  show "\<exists>a\<in>set A. share_key a (B ! j) \<and> 0 < overlap_len a (B ! j)
                        \<and> reciprocal_overlap_flag a (B ! j) = 1" by blast
next
  assume "\<exists>a\<in>set A. share_key a (B ! j) \<and> 0 < overlap_len a (B ! j)
                        \<and> reciprocal_overlap_flag a (B ! j) = 1"
  moreover have "B ! j \<in> set B" "rowid (B ! j) = int j"
    using scan_cnv_rows [OF assms(1)] assms(2) by simp_all
  ultimately show "int j \<in> set (hits_b (overlaps_query A B))"
    unfolding in_hits_b in_overlaps_query_spec by metis
qed

lemma flag_column:
  assumes "loc_setitem (setitem_scalar df c v0) ids c v1 = Inr df'"
  shows "nrows df' = nrows df"
    and "columns df' = (if c \<in> set (columns df) then columns df else columns df @ [c])"
    and "c' \<noteq> c \<Longrightarrow> map_of (cols df') c' = map_of (cols df) c'"
    and "map_of (cols df') c = Some (map (\<lambda>i. if int i \<in> set ids then v1 else v0) [0..<nrows df])"
proof -
  note L = loc_setitem_Inr [OF assms]
  show "nrows df' = nrows df" using L(1) by simp
  show "columns df' = (if c \<in> set (columns df) then columns df else columns df @ [c])"
    using L(2) by (simp add: columns_setitem_scalar)
  show "c' \<noteq> c \<Longrightarrow> map_of (cols df') c' = map_of (cols df) c'"
    using L(3) [of c'] by (simp add: lookup_setitem_scalar)
  have "map_of (cols (setitem_scalar df c v0)) c = Some (replicate (nrows df) v0)"
    by (simp add: lookup_setitem_scalar)
  from L(4) [OF this]
  show "map_of (cols df') c = Some (map (\<lambda>i. if int i \<in> set ids then v1 else v0) [0..<nrows df])"
    by (simp add: enumerate_replicate_eq comp_def)
qed

lemma main_InrD:
  assumes "main fa fb = Inr r"
  shows "\<exists>A B da1 db1 da2 db2 glog summ.
     scan_cnv (add_row_ids fa) = Inr A \<and> scan_cnv (add_row_ids fb) = Inr B \<and>
     loc_setitem (setitem_scalar (add_row_ids fa) ''CNV_based_overlap'' (IntC 0))
        (hits_a (overlaps_query A B)) ''CNV_based_overlap'' (IntC 1) = Inr da1 \<and>
     loc_setitem (setitem_scalar (add_row_ids fb) ''CNV_based_overlap'' (IntC 0))
        (hits_b (overlaps_query A B)) ''CNV_based_overlap'' (IntC 1) = Inr db1 \<and>
     gene_step da1 db1 = Inr (da2, db2, glog) \<and>
     print_summary da2 db2 ''File A'' ''File B'' = Inr summ \<and>
     drop_column da2 ''rowid'' = Inr (out_a r) \<and>
     drop_column db2 ''rowid'' = Inr (out_b r) \<and>
     stdout r = [Info ''Computing reciprocal overlaps >= 50% ...''] @ glog
                      @ summ @ [Info ''Saving results'', Info ''Done.'']"
  using assms unfolding main_def Let_def flag_overlaps_def ebind_Inr_iff
  by (auto simp: ebind_Inr_iff split: prod.splits)

lemma main_InrI:
  assumes "scan_cnv (add_row_ids fa) = Inr A" and "scan_cnv (add_row_ids fb) = Inr B"
    and "loc_setitem (setitem_scalar (add_row_ids fa) ''CNV_based_overlap'' (IntC 0))
        (hits_a (overlaps_query A B)) ''CNV_based_overlap'' (IntC 1) = Inr da1"
    and "loc_setitem (setitem_scalar (add_row_ids fb) ''CNV_based_overlap'' (IntC 0))
        (hits_b (overlaps_query A B)) ''CNV_based_overlap'' (IntC 1) = Inr db1"
    and "gene_step da1 db1 = Inr (da2, db2, glog)"
    and "print_summary da2 db2 ''File A'' ''File B'' = Inr summ"
    and "drop_column da2 ''rowid'' = Inr ra"
    and "drop_column db2 ''rowid'' = Inr rb"
  shows "main fa fb = Inr \<lparr>out_a = ra, out_b = rb,
             stdout = [Info ''Computing reciprocal overlaps >= 50% ...''] @ glog
                      @ summ @ [Info ''Saving results'', Info ''Done.'']\<rparr>"
  using assms by (simp add: main_def Let_def flag_overlaps_def)

lemma gene_step_frame:
  assumes "gene_step da db = Inr (da', db', glog)"
  shows "nrows da' = nrows da" and "nrows db' = nrows db"
    and "c \<noteq> ''gene_based_overlap'' \<Longrightarrow> map_of (cols da') c = map_of (cols da) c"
    and "c \<noteq> ''gene_based_overlap'' \<Longrightarrow> map_of (cols db') c = map_of (cols db) c"
    and "columns da' = (if ''gene_based_overlap'' \<in> set (columns da) then columns da
                        else columns da @ [''gene_based_overlap''])"
    and "columns db' = (if ''gene_based_overlap'' \<in> set (columns db) then columns db
                        else columns db @ [''gene_based_overlap''])"
proof -
  have "nrows da' = nrows da \<and> nrows db' = nrows db
    \<and> (c \<noteq> ''gene_based_overlap'' \<longrightarrow> map_of (cols da') c = map_of (cols da) c)
    \<and> (c \<noteq> ''gene_based_overlap'' \<longrightarrow> map_of (cols db') c = map_of (cols db) c)
    \<and> columns da' = (if ''gene_based_overlap'' \<in> set (columns da) then columns da
                        else columns da @ [''gene_based_overlap''])
    \<and> columns db' = (if ''gene_based_overlap'' \<in> set (columns db) then columns db
                        else columns db @ [''gene_based_overlap''])"
  proof (cases "''Gene_ID'' \<in> set (columns da) \<and> ''Gene_ID'' \<in> set (columns db)")
    case True
    with assms obtain ga gb where
      a: "loc_setitem (setitem_scalar da ''gene_based_overlap'' (IntC 0))
                 (gene_hits ga) ''gene_based_overlap'' (IntC 1) = Inr da'" and
      b: "loc_setitem (setitem_scalar db ''gene_based_overlap'' (IntC 0))
                 (gene_hits gb) ''gene_based_overlap'' (IntC 1) = Inr db'"
      by (auto simp: gene_step_def ebind_Inr_iff)
    show ?thesis
      using flag_column(1,2) [OF a] flag_column(1,2) [OF b]
        flag_column(3) [OF a, of c] flag_column(3) [OF b, of c]
      by simp
  next
    case False
    with assms have "da' = setitem_scalar da ''gene_based_overlap'' NA"
      "db' = setitem_scalar db ''gene_based_overlap'' NA"
      by (auto simp: gene_step_def)
    then show ?thesis
      by (simp add: lookup_setitem_scalar columns_setitem_scalar)
  qed
  then show "nrows da' = nrows da" and "nrows db' = nrows db"
    and "c \<noteq> ''gene_based_overlap'' \<Longrightarrow> map_of (cols da') c = map_of (cols da) c"
    and "c \<noteq> ''gene_based_overlap'' \<Longrightarrow> map_of (cols db') c = map_of (cols db) c"
    and "columns da' = (if ''gene_based_overlap'' \<in> set (columns da) then columns da
                        else columns da @ [''gene_based_overlap''])"
    and "columns db' = (if ''gene_based_overlap'' \<in> set (columns db) then columns db
                        else columns db @ [''gene_based_overlap''])"
    by simp_all
qed

lemma main_cnv_column:
  assumes "main fa fb = Inr r"
    and "scan_cnv (add_row_ids fa) = Inr A" and "scan_cnv (add_row_ids fb) = Inr B"
  shows "map_of (cols (out_a r)) ''CNV_based_overlap'' =
           Some (map (\<lambda>i. if int i \<in> set (hits_a (overlaps_query A B)) then IntC 1 else IntC 0)
                   [0..<nrows fa])"
    and "map_of (cols (out_b r)) ''CNV_based_overlap'' =
           Some (map (\<lambda>i. if int i \<in> set (hits_b (overlaps_query A B)) then IntC 1 else IntC 0)
                   [0..<nrows fb])"
proof -
  from main_InrD [OF assms(1)] assms(2,3) obtain da1 db1 da2 db2 glog where
    a1: "loc_setitem (setitem_scalar (add_row_ids fa) ''CNV_based_overlap'' (IntC 0))
        (hits_a (overlaps_query A B)) ''CNV_based_overlap'' (IntC 1) = Inr da1" and
    b1: "loc_setitem (setitem_scalar (add_row_ids fb) ''CNV_based_overlap'' (IntC 0))
        (hits_b (overlaps_query A B)) ''CNV_based_overlap'' (IntC 1) = Inr db1" and
    g: "gene_step da1 db1 = Inr (da2, db2, glog)" and
    ra: "drop_column da2 ''rowid'' = Inr (out_a r)" and
    rb: "drop_column db2 ''rowid'' = Inr (out_b r)"
    by auto
  have "map_of (cols (out_a r)) ''CNV_based_overlap'' = map_of (cols da2) ''CNV_based_overlap''"
    using drop_column_Inr(3) [OF ra, of "''CNV_based_overlap''"] by simp
  also have "\<dots> = map_of (cols da1) ''CNV_based_overlap''"
    using gene_step_frame(3) [OF g, of "''CNV_based_overlap''"] by simp
  finally show "map_of (cols (out_a r)) ''CNV_based_overlap'' =
           Some (map (\<lambda>i. if int i \<in> set (hits_a (overlaps_query A B)) then IntC 1 else IntC 0)
                   [0..<nrows fa])"
    using flag_column(4) [OF a1] by simp
  have "map_of (cols (out_b r)) ''CNV_based_overlap'' = map_of (cols db2) ''CNV_based_overlap''"
    using drop_column_Inr(3) [OF rb, of "''CNV_based_overlap''"] by simp
  also have "\<dots> = map_of (cols db1) ''CNV_based_overlap''"
    using gene_step_frame(4) [OF g, of "''CNV_based_overlap''"] by simp
  finally show "map_of (cols (out_b r)) ''CNV_based_overlap'' =
           Some (map (\<lambda>i. if int i \<in> set (hits_b (overlaps_query A B)) then IntC 1 else IntC 0)
                   [0..<nrows fb])"
    using flag_column(4) [OF b1] by simp
qed

lemma main_cnv_cell:
  assumes "main fa fb = Inr r"
    and "scan_cnv (add_row_ids fa) = Inr A" and "scan_cnv (add_row_ids fb) = Inr B"
  shows "i < nrows fa \<Longrightarrow> cell_at (out_a r) ''CNV_based_overlap'' i =
           Some (if int i \<in> set (hits_a (overlaps_query A B)) then IntC 1 else IntC 0)"
    and "j < nrows fb \<Longrightarrow> cell_at (out_b r) ''CNV_based_overlap'' j =
           Some (if int j \<in> set (hits_b (overlaps_query A B)) then IntC 1 else IntC 0)"
  using main_cnv_column [OF assms] by (simp_all add: cell_at_def)

lemma scan_gene_InrD:
  assumes "scan_gene df = Inr G"
  shows "\<exists>ids ss ts gs.
        map_of (cols df) ''rowid'' = Some (map IntC ids) \<and>
        map_of (cols df) ''SampleID'' = Some ss \<and>
        map_of (cols df) ''Type'' = Some ts \<and>
        map_of (cols df) ''Gene_ID'' = Some gs \<and>
        G = map (\<lambda>i. \<lparr>g_rowid = ids ! i, g_SampleID = ss ! i, g_Type = ts ! i,
                       g_Gene_ID = gs ! i\<rparr>) [0..<nrows df]"
  using assms
  unfolding scan_gene_def ebind_Inr_iff int_column_Inr_iff column_Inr_iff sum.inject
  by (elim exE conjE) (intro exI conjI, (assumption | rule sym)+)

lemma scan_gene_InrI:
  assumes "map_of (cols df) ''rowid'' = Some (map IntC ids)"
    and "map_of (cols df) ''SampleID'' = Some ss"
    and "map_of (cols df) ''Type'' = Some ts"
    and "map_of (cols df) ''Gene_ID'' = Some gs"
  shows "scan_gene df = Inr (map (\<lambda>i. \<lparr>g_rowid = ids ! i, g_SampleID = ss ! i, g_Type = ts ! i,
                       g_Gene_ID = gs ! i\<rparr>) [0..<nrows df])"
  using assms by (simp add: scan_gene_def int_column_def column_def int_cells_IntC)

lemma scan_gene_cong:
  assumes "nrows d' = nrows d"
    and "\<And>c. c \<noteq> ''gene_based_overlap'' \<Longrightarrow> map_of (cols d') c = map_of (cols d) c"
  shows "scan_gene d' = scan_gene d"
  using assms by (simp add: scan_gene_def int_column_def column_def)

lemma scan_gene_rows:
  assumes "scan_gene df = Inr G"
    and "map_of (cols df) ''rowid'' = Some (map IntC (map int [0..<nrows df]))"
  shows "length G = nrows df"
    and "i < nrows df \<Longrightarrow> g_rowid (G ! i) = int i"
    and "i < nrows df \<Longrightarrow> map_of (cols df) ''Gene_ID'' = Some gs \<Longrightarrow> g_Gene_ID (G ! i) = gs ! i"
proof -
  from scan_gene_InrD [OF assms(1)] obtain ids ss ts gs' where
    ids: "map_of (cols df) ''rowid'' = Some (map IntC ids)" and
    gs': "map_of (cols df) ''Gene_ID'' = Some gs'" and
    G: "G = map (\<lambda>i. \<lparr>g_rowid = ids ! i, g_SampleID = ss ! i, g_Type = ts ! i,
                       g_Gene_ID = gs' ! i\<rparr>) [0..<nrows df]"
    by blast
  from ids assms(2) have "map IntC ids = map IntC (map int [0..<nrows df])" by simp
  then have ids_eq: "ids = map int [0..<nrows df]" by (simp only: map_IntC_inj)
  show "length G = nrows df" by (simp add: G)
  show "i < nrows df \<Longrightarrow> g_rowid (G ! i) = int i" by (simp add: G ids_eq)
  show "i < nrows df \<Longrightarrow> map_of (cols df) ''Gene_ID'' = Some gs \<Longrightarrow> g_Gene_ID (G ! i) = gs ! i"
    using gs' by (simp add: G)
qed

lemma in_gene_hits:
  "i \<in> set (gene_hits (gene_query GA GB)) \<longleftrightarrow>
     (\<exists>a\<in>set GA. g_rowid a = i \<and> (\<exists>b\<in>set GB. gene_on a b))"
proof -
  have one: "\<And>a. i \<in> fst ` {t \<in> set (case filter (gene_on a) GB of
                          [] \<Rightarrow> [(g_rowid a, 0::int)]
                        | ms \<Rightarrow> map (\<lambda>b. (g_rowid a, 1)) ms). snd t = 1}
          \<longleftrightarrow> g_rowid a = i \<and> (\<exists>b\<in>set GB. gene_on a b)"
  proof -
    fix a
    show "i \<in> fst ` {t \<in> set (case filter (gene_on a) GB of
                          [] \<Rightarrow> [(g_rowid a, 0::int)]
                        | ms \<Rightarrow> map (\<lambda>b. (g_rowid a, 1)) ms). snd t = 1}
          \<longleftrightarrow> g_rowid a = i \<and> (\<exists>b\<in>set GB. gene_on a b)"
    proof (cases "filter (gene_on a) GB")
      case Nil
      then show ?thesis by (auto simp: filter_empty_conv)
    next
      case (Cons m ms)
      then have "m \<in> set (filter (gene_on a) GB)" by simp
      then have "\<exists>b\<in>set GB. gene_on a b" by auto
      then show ?thesis using Cons by (auto simp: image_iff)
    qed
  qed
  have "i \<in> set (gene_hits (gene_query GA GB)) \<longleftrightarrow>
     (\<exists>a\<in>set GA. i \<in> fst ` {t \<in> set (case filter (gene_on a) GB of
                          [] \<Rightarrow> [(g_rowid a, 0::int)]
                        | ms \<Rightarrow> map (\<lambda>b. (g_rowid a, 1)) ms). snd t = 1})"
    by (auto simp: gene_hits_def gene_query_def image_iff)
  then show ?thesis using one by simp
qed

lemma gene_hits_range:
  assumes "scan_gene df = Inr GA"
    and "map_of (cols df) ''rowid'' = Some (map IntC (map int [0..<nrows df]))"
  shows "list_all (\<lambda>i. 0 \<le> i \<and> i < int (nrows df)) (gene_hits (gene_query GA GB))"
proof -
  have "\<And>a. a \<in> set GA \<Longrightarrow> 0 \<le> g_rowid a \<and> g_rowid a < int (nrows df)"
  proof -
    fix a assume "a \<in> set GA"
    then obtain k where "k < length GA" "a = GA ! k" by (auto simp: in_set_conv_nth)
    then show "0 \<le> g_rowid a \<and> g_rowid a < int (nrows df)"
      using scan_gene_rows(1,2) [OF assms] by simp
  qed
  then show ?thesis by (auto simp: list_all_iff in_gene_hits)
qed



lemma gene_step_absent:
  assumes "\<not> (''Gene_ID'' \<in> set (columns da) \<and> ''Gene_ID'' \<in> set (columns db))"
  shows "gene_step da db =
     Inr (setitem_scalar da ''gene_based_overlap'' NA, setitem_scalar db ''gene_based_overlap'' NA,
          [Info ''Skipping gene overlap check (Gene_ID column missing in one or both files)''])"
  using assms by (auto simp: gene_step_def)

lemma gene_step_ok:
  assumes "map_of (cols da) ''rowid'' = Some (map IntC (map int [0..<nrows da]))"
    and "map_of (cols da) ''SampleID'' = Some sa" and "map_of (cols da) ''Type'' = Some ta"
    and "map_of (cols db) ''rowid'' = Some (map IntC (map int [0..<nrows db]))"
    and "map_of (cols db) ''SampleID'' = Some sb" and "map_of (cols db) ''Type'' = Some tb"
  shows "\<exists>da' db' glog. gene_step da db = Inr (da', db', glog)"
proof (cases "''Gene_ID'' \<in> set (columns da) \<and> ''Gene_ID'' \<in> set (columns db)")
  case False
  then show ?thesis by (simp add: gene_step_absent)
next
  case True
  then obtain gsa gsb where
    gsa: "map_of (cols da) ''Gene_ID'' = Some gsa" and gsb: "map_of (cols db) ''Gene_ID'' = Some gsb"
    by (auto simp: in_columns_iff)
  from scan_gene_InrI [OF assms(1,2,3) gsa] obtain GA where ga: "scan_gene da = Inr GA" by blast
  from scan_gene_InrI [OF assms(4,5,6) gsb] obtain GB where gb: "scan_gene db = Inr GB" by blast
  from loc_setitem_ok [of "setitem_scalar da ''gene_based_overlap'' (IntC 0)"
        "gene_hits (gene_query GA GB)" "''gene_based_overlap''" "IntC 1"]
    gene_hits_range [OF ga assms(1), of GB]
  obtain da' where a: "loc_setitem (setitem_scalar da ''gene_based_overlap'' (IntC 0))
                 (gene_hits (gene_query GA GB)) ''gene_based_overlap'' (IntC 1) = Inr da'"
    by auto
  have ga': "scan_gene da' = Inr GA"
    using flag_column(1,3) [OF a] ga scan_gene_cong [of da' da] by simp
  from loc_setitem_ok [of "setitem_scalar db ''gene_based_overlap'' (IntC 0)"
        "gene_hits (gene_query GB GA)" "''gene_based_overlap''" "IntC 1"]
    gene_hits_range [OF gb assms(4), of GA]
  obtain db' where b: "loc_setitem (setitem_scalar db ''gene_based_overlap'' (IntC 0))
                 (gene_hits (gene_query GB GA)) ''gene_based_overlap'' (IntC 1) = Inr db'"
    by auto
  show ?thesis
    using True ga gb a ga' b by (simp add: gene_step_def flag_gene_matches_def)
qed

lemma summary_of_ok:
  assumes "map_of (cols df) ''CNV_based_overlap'' = Some cnvs"
    and "map_of (cols df) ''gene_based_overlap'' = Some genes"
  shows "summary_of name df =
     Inr ([TotalLine name (nrows df), CnvOverlap (cell_sum cnvs) (nrows df)]
          @ (if notna_any genes
             then [GeneOverlap (cell_sum genes) (nrows df), BothOverlap (both_count cnvs genes) (nrows df)]
             else []))"
  using assms by (simp add: summary_of_def getitem_def Let_def)

lemma main_total:
  assumes "scan_cnv (add_row_ids fa) = Inr A" and "scan_cnv (add_row_ids fb) = Inr B"
  shows "\<exists>r. main fa fb = Inr r"
proof -
  let ?cnv = "''CNV_based_overlap''" and ?gene = "''gene_based_overlap''"
  from scan_cnv_InrD [OF assms(1)] obtain sa ta where
    sa: "map_of (cols (add_row_ids fa)) ''SampleID'' = Some sa" and
    ta: "map_of (cols (add_row_ids fa)) ''Type'' = Some ta" by blast
  from scan_cnv_InrD [OF assms(2)] obtain sb tb where
    sb: "map_of (cols (add_row_ids fb)) ''SampleID'' = Some sb" and
    tb: "map_of (cols (add_row_ids fb)) ''Type'' = Some tb" by blast
  from loc_setitem_ok [of "setitem_scalar (add_row_ids fa) ?cnv (IntC 0)"
        "hits_a (overlaps_query A B)" ?cnv "IntC 1"] hits_a_range [OF assms(1), of B]
  obtain da1 where a1: "loc_setitem (setitem_scalar (add_row_ids fa) ?cnv (IntC 0))
        (hits_a (overlaps_query A B)) ?cnv (IntC 1) = Inr da1" by auto
  from loc_setitem_ok [of "setitem_scalar (add_row_ids fb) ?cnv (IntC 0)"
        "hits_b (overlaps_query A B)" ?cnv "IntC 1"] hits_b_range [OF assms(2), of A]
  obtain db1 where b1: "loc_setitem (setitem_scalar (add_row_ids fb) ?cnv (IntC 0))
        (hits_b (overlaps_query A B)) ?cnv (IntC 1) = Inr db1" by auto
  note fa1 = flag_column [OF a1] and fb1 = flag_column [OF b1]
  have ra1: "map_of (cols da1) ''rowid'' = Some (map IntC (map int [0..<nrows da1]))"
    using fa1(1) fa1(3) [of "''rowid''"] by (simp add: rowid_add_row_ids)
  have rb1: "map_of (cols db1) ''rowid'' = Some (map IntC (map int [0..<nrows db1]))"
    using fb1(1) fb1(3) [of "''rowid''"] by (simp add: rowid_add_row_ids)
  have sa1: "map_of (cols da1) ''SampleID'' = Some sa" "map_of (cols da1) ''Type'' = Some ta"
    using fa1(3) [of "''SampleID''"] fa1(3) [of "''Type''"] sa ta by simp_all
  have sb1: "map_of (cols db1) ''SampleID'' = Some sb" "map_of (cols db1) ''Type'' = Some tb"
    using fb1(3) [of "''SampleID''"] fb1(3) [of "''Type''"] sb tb by simp_all
  from gene_step_ok [OF ra1 sa1 rb1 sb1] obtain da2 db2 glog where
    g: "gene_step da1 db1 = Inr (da2, db2, glog)" by blast
  note gf = gene_step_frame [OF g]
  have "?gene \<in> set (columns da2)" "?gene \<in> set (columns db2)"
    using gf(5,6) by (simp_all split: if_splits)
  then obtain gca gcb where
    gca: "map_of (cols da2) ?gene = Some gca" and gcb: "map_of (cols db2) ?gene = Some gcb"
    by (auto simp: in_columns_iff)
  have ca: "map_of (cols da2) ?cnv = map_of (cols da1) ?cnv"
    and cb: "map_of (cols db2) ?cnv = map_of (cols db1) ?cnv"
    using gf(3) [of ?cnv] gf(4) [of ?cnv] by simp_all
  from summary_of_ok [OF ca [unfolded fa1(4)] gca] summary_of_ok [OF cb [unfolded fb1(4)] gcb]
  obtain summ where s: "print_summary da2 db2 ''File A'' ''File B'' = Inr summ"
    by (simp add: print_summary_def)
  have "map_of (cols da2) ''rowid'' \<noteq> None" "map_of (cols db2) ''rowid'' \<noteq> None"
    using gf(3) [of "''rowid''"] gf(4) [of "''rowid''"] ra1 rb1 by simp_all
  then have "''rowid'' \<in> set (columns da2)" "''rowid'' \<in> set (columns db2)"
    by (simp_all add: in_columns_iff)
  then obtain ra rb where
    "drop_column da2 ''rowid'' = Inr ra" "drop_column db2 ''rowid'' = Inr rb"
    using drop_column_ok by blast
  from main_InrI [OF assms a1 b1 g s this] show ?thesis by blast
qed

lemma overlaps_query_single_b:
  "set (overlaps_query A [b]) =
   set (overlaps_query (filter (\<lambda>a. SampleID a = SampleID b \<and> Chr a = Chr b \<and> Type a = Type b) A) [b])"
  by (induction A) (auto simp: overlaps_query_def join_on_def sql_eq_def)

lemma overlaps_query_swap:
  "(i, j, fl) \<in> set (overlaps_query A B) \<longleftrightarrow> (j, i, fl) \<in> set (overlaps_query B A)"
  unfolding in_overlaps_query_spec
  using share_key_sym overlap_len_sym flag_sym by metis

lemma hits_swap: "set (hits_b (overlaps_query A B)) = set (hits_a (overlaps_query B A))"
  using overlaps_query_swap by (auto simp: in_hits_a in_hits_b)

lemma hits_swap': "set (hits_a (overlaps_query A B)) = set (hits_b (overlaps_query B A))"
  using overlaps_query_swap by (auto simp: in_hits_a in_hits_b)












lemma intersect_file_inj: "intersect_file f = intersect_file g \<longleftrightarrow> f = g"
  by (simp add: intersect_file_def)

lemma flag_name_inj: "flag_name f = flag_name g \<longleftrightarrow> f = g"
  by (simp add: flag_name_def)

lemma intersect_file_other:
  "intersect_file f \<noteq> ''child_cnv.bed''" "intersect_file f \<noteq> ''parents_cnv.bed''"
  by (simp_all add: intersect_file_def)

lemma fold_update_lookup:
  assumes "\<And>x y. nm x = nm y \<Longrightarrow> x = y"
  shows "map_of (fold (\<lambda>x al. AList.update (nm x) (val x) al) xs al0) (nm f) =
           (if f \<in> set xs then Some (val f) else map_of al0 (nm f))"
proof (induction xs arbitrary: al0)
  case Nil
  then show ?case by simp
next
  case (Cons x xs)
  show ?case using assms by (auto simp: Cons.IH update_conv')
qed

lemma fold_update_other:
  "k \<notin> nm ` set xs \<Longrightarrow>
     map_of (fold (\<lambda>x al. AList.update (nm x) (val x) al) xs al0) k = map_of al0 k"
  by (induction xs arbitrary: al0) (auto simp: update_conv')

lemma fold_update_keys:
  "fst ` set (fold (\<lambda>x al. AList.update (nm x) (val x) al) xs al0) = nm ` set xs \<union> fst ` set al0"
  by (induction xs arbitrary: al0) (auto simp: dom_update)

lemma run_intersects_lookup:
  "f \<in> set OVERLAPS \<Longrightarrow>
     map_of (run_intersects bt OVERLAPS [(''child_cnv.bed'', child), (''parents_cnv.bed'', parents)])
        (intersect_file f) = Some (bt f child parents)"
  unfolding run_intersects_def
  using fold_update_lookup [where nm = intersect_file and f = f
      and val = "\<lambda>ovlap. bt ovlap child parents" and xs = OVERLAPS
      and ?al0.0 = "[(''child_cnv.bed'', child), (''parents_cnv.bed'', parents)]"]
  by (simp add: intersect_file_inj)

lemma run_intersects_child:
  "map_of (run_intersects bt OVERLAPS [(''child_cnv.bed'', child), (''parents_cnv.bed'', parents)])
        ''child_cnv.bed'' = Some child"
proof -
  have "''child_cnv.bed'' \<notin> intersect_file ` set OVERLAPS"
    using intersect_file_other(1) by force
  from fold_update_other [OF this, where val = "\<lambda>ovlap. bt ovlap child parents"
      and ?al0.0 = "[(''child_cnv.bed'', child), (''parents_cnv.bed'', parents)]"]
  show ?thesis by (simp add: run_intersects_def)
qed

lemma annotate_fold:
  assumes "\<And>f. f \<in> set os \<Longrightarrow> read_csv fs (intersect_file f) = Inr (res f)"
  shows "annotate fs child os tbl =
     Inr (fold (\<lambda>ovlap al. AList.update (flag_name ovlap)
                   (map (\<lambda>c. ID c \<in> set (map ID (res ovlap))) child) al) os tbl)"
  using assms by (induction os arbitrary: tbl) simp_all

lemma per_threshold_flags:
  assumes "child_bed \<noteq> []" and "\<forall>f\<in>set OVERLAPS. bt f child_bed parent_bed \<noteq> []"
  shows "\<exists>tbl. inheritance_flags bt OVERLAPS child_bed parent_bed = Inr tbl
     \<and> set (map fst tbl) = flag_name ` set OVERLAPS
     \<and> (\<forall>f\<in>set OVERLAPS.
           map_of tbl (flag_name f) =
             Some (map (\<lambda>c. \<exists>hit\<in>set (bt f child_bed parent_bed). ID hit = ID c) child_bed)
         \<and> inheritance_flags bt [f] child_bed parent_bed =
             Inr [(flag_name f, the (map_of tbl (flag_name f)))])"
proof -
  let ?val = "\<lambda>ovlap. map (\<lambda>c. ID c \<in> set (map ID (bt ovlap child_bed parent_bed))) child_bed"
  let ?tbl = "fold (\<lambda>ovlap al. AList.update (flag_name ovlap) (?val ovlap) al) OVERLAPS []"
  let ?fs = "\<lambda>os. run_intersects bt os [(''child_cnv.bed'', child_bed), (''parents_cnv.bed'', parent_bed)]"
  have child: "read_csv (?fs os) ''child_cnv.bed'' = Inr child_bed" for os
    using assms(1) by (simp add: read_csv_def run_intersects_child)
  have res: "read_csv (?fs os) (intersect_file f) = Inr (bt f child_bed parent_bed)"
    if "f \<in> set os" "f \<in> set OVERLAPS" for f os
    using that assms(2) by (simp add: read_csv_def run_intersects_lookup)
  have run: "inheritance_flags bt OVERLAPS child_bed parent_bed = Inr ?tbl"
    unfolding inheritance_flags_def Let_def child
    using annotate_fold [of OVERLAPS "?fs OVERLAPS" "\<lambda>f. bt f child_bed parent_bed" child_bed "[]"] res
    by simp
  have keys: "set (map fst ?tbl) = flag_name ` set OVERLAPS"
    using fold_update_keys [where nm = flag_name and val = ?val and xs = OVERLAPS
        and ?al0.0 = "[]"] by simp
  have look: "map_of ?tbl (flag_name f) = Some (?val f)" if "f \<in> set OVERLAPS" for f
    using fold_update_lookup [where nm = flag_name and f = f and val = ?val
        and xs = OVERLAPS and ?al0.0 = "[]"] that
    by (simp add: flag_name_inj)
  have val: "?val f = map (\<lambda>c. \<exists>hit\<in>set (bt f child_bed parent_bed). ID hit = ID c) child_bed" for f
    by (rule map_cong) (auto simp: image_iff intro: sym)
  have single: "inheritance_flags bt [f] child_bed parent_bed = Inr [(flag_name f, ?val f)]"
    if "f \<in> set OVERLAPS" for f
    unfolding inheritance_flags_def Let_def child
    using res [of f "[f]"] that by simp
  show ?thesis
    using run keys look val single by (intro exI [of _ ?tbl]) simp
qed


section \<open>The claims\<close>







text \<open>
  C4 fails on the inheritance script when \<open>bedtools\<close> reports no row at one of the
  fractions: the file of that fraction is empty, reading it back raises, and no flag is
  produced for any fraction. Child \<open>[100, 200)\<close> and parent \<open>[150, 300)\<close> overlap by 50:
  the run with 0.1 alone flags the child, the run with 0.5 alone aborts, and the run with
  0.1 and 0.5 aborts too, so the flag at 0.1 is not independent of the fraction 0.5.
  (When every fraction has a reported row, \<open>per_threshold_flags\<close> above gives the claim.)
\<close>

theorem empty_intersect_aborts:
  "ex_bt ''0.5'' ex_child ex_parents = []
   \<and> inheritance_flags ex_bt [''0.5''] ex_child ex_parents
        = Inl (NoDataError ''intersect_ovlap0.5.bed'')
   \<and> inheritance_flags ex_bt [''0.1''] ex_child ex_parents
        = Inr [(''observed_in_parent_ovlap0.1'', [True])]
   \<and> inheritance_flags ex_bt [''0.1'', ''0.5''] ex_child ex_parents
        = Inl (NoDataError ''intersect_ovlap0.5.bed'')"
  by code_simp









text \<open>
  C8. The decision on a pair is the same from either side: the overlap query with the
  collections exchanged returns the same rows with the two ids exchanged, and running the
  script with the two files exchanged gives each collection the same
  \<open>CNV_based_overlap\<close> column.
\<close>

theorem overlap_flag_symmetric:
  assumes "main file_a file_b = Inr r"
    and "scan_cnv (add_row_ids file_a) = Inr A" and "scan_cnv (add_row_ids file_b) = Inr B"
  shows "(\<forall>i j fl. (i, j, fl) \<in> set (overlaps_query A B) \<longleftrightarrow> (j, i, fl) \<in> set (overlaps_query B A))
     \<and> (\<exists>r'. main file_b file_a = Inr r'
           \<and> map_of (cols (out_a r)) ''CNV_based_overlap'' = map_of (cols (out_b r')) ''CNV_based_overlap''
           \<and> map_of (cols (out_b r)) ''CNV_based_overlap'' = map_of (cols (out_a r')) ''CNV_based_overlap'')"
proof -
  from main_total [OF assms(3,2)] obtain r' where r': "main file_b file_a = Inr r'" by blast
  note c = main_cnv_column [OF assms] and c' = main_cnv_column [OF r' assms(3,2)]
  have "map_of (cols (out_a r)) ''CNV_based_overlap'' = map_of (cols (out_b r')) ''CNV_based_overlap''"
    unfolding c(1) c'(2) hits_swap' ..
  moreover
  have "map_of (cols (out_b r)) ''CNV_based_overlap'' = map_of (cols (out_a r')) ''CNV_based_overlap''"
    unfolding c(2) c'(1) hits_swap ..
  ultimately show ?thesis using r' overlaps_query_swap by blast
qed

theorem overlap_flag_symmetric_witness:
  "main ex_a ex_b2 = Inr (projr (main ex_a ex_b2))
   \<and> scan_cnv (add_row_ids ex_a) = Inr (projr (scan_cnv (add_row_ids ex_a)))
   \<and> scan_cnv (add_row_ids ex_b2) = Inr (projr (scan_cnv (add_row_ids ex_b2)))
   \<and> map_of (cols (out_b (projr (main ex_a ex_b2)))) ''CNV_based_overlap''
       = Some [IntC 0, IntC 1]
   \<and> map_of (cols (out_a (projr (main ex_b2 ex_a)))) ''CNV_based_overlap''
       = Some [IntC 0, IntC 1]"
proof -
  have h1: "main ex_a ex_b2 = Inr (projr (main ex_a ex_b2))" by code_simp
  have h2: "scan_cnv (add_row_ids ex_a) = Inr (projr (scan_cnv (add_row_ids ex_a)))"
    by code_simp
  have h3: "scan_cnv (add_row_ids ex_b2) = Inr (projr (scan_cnv (add_row_ids ex_b2)))"
    by code_simp
  have c1: "map_of (cols (out_b (projr (main ex_a ex_b2)))) ''CNV_based_overlap''
       = Some [IntC 0, IntC 1]" by code_simp
  have c2: "map_of (cols (out_a (projr (main ex_b2 ex_a)))) ''CNV_based_overlap''
       = Some [IntC 0, IntC 1]" by code_simp
  from overlap_flag_symmetric [OF h1 h2 h3] h1 h2 h3 c1 c2 show ?thesis
    by (intro conjI) assumption+
qed

text \<open>
  C9. A record with \<open>End \<le> Start\<close>, in either collection, receives
  \<open>CNV_based_overlap = 0\<close>: its overlap length with any partner is at most
  \<open>End - Start \<le> 0\<close>, so it is in no candidate pair, although it stays in the input.
\<close>

theorem invalid_record_flag_zero:
  assumes "main file_a file_b = Inr r"
    and "scan_cnv (add_row_ids file_a) = Inr A" and "scan_cnv (add_row_ids file_b) = Inr B"
  shows "(\<forall>i<nrows file_a. End (A ! i) \<le> Start (A ! i) \<longrightarrow>
            cell_at (out_a r) ''CNV_based_overlap'' i = Some (IntC 0))
       \<and> (\<forall>j<nrows file_b. End (B ! j) \<le> Start (B ! j) \<longrightarrow>
            cell_at (out_b r) ''CNV_based_overlap'' j = Some (IntC 0))"
proof (intro conjI allI impI)
  fix i assume i: "i < nrows file_a" and bad: "End (A ! i) \<le> Start (A ! i)"
  from bad have "\<And>b. \<not> 0 < overlap_len (A ! i) b" by (simp add: overlap_len_def)
  then have "int i \<notin> set (hits_a (overlaps_query A B))"
    using hit_a_iff [OF assms(2) i, of B] by simp
  then show "cell_at (out_a r) ''CNV_based_overlap'' i = Some (IntC 0)"
    using main_cnv_cell(1) [OF assms i] by simp
next
  fix j assume j: "j < nrows file_b" and bad: "End (B ! j) \<le> Start (B ! j)"
  from bad have "\<And>a. \<not> 0 < overlap_len a (B ! j)" by (simp add: overlap_len_def)
  then have "int j \<notin> set (hits_b (overlaps_query A B))"
    using hit_b_iff [OF assms(3) j, of A] by simp
  then show "cell_at (out_b r) ''CNV_based_overlap'' j = Some (IntC 0)"
    using main_cnv_cell(2) [OF assms j] by simp
qed

theorem invalid_record_flag_zero_witness:
  "main ex_bad ex_a = Inr (projr (main ex_bad ex_a))
   \<and> scan_cnv (add_row_ids ex_bad) = Inr (projr (scan_cnv (add_row_ids ex_bad)))
   \<and> scan_cnv (add_row_ids ex_a) = Inr (projr (scan_cnv (add_row_ids ex_a)))
   \<and> 0 < nrows ex_bad
   \<and> End (projr (scan_cnv (add_row_ids ex_bad)) ! 0) \<le> Start (projr (scan_cnv (add_row_ids ex_bad)) ! 0)
   \<and> cell_at (out_a (projr (main ex_bad ex_a))) ''CNV_based_overlap'' 0 = Some (IntC 0)"
proof -
  have h1: "main ex_bad ex_a = Inr (projr (main ex_bad ex_a))" by code_simp
  have h2: "scan_cnv (add_row_ids ex_bad) = Inr (projr (scan_cnv (add_row_ids ex_bad)))"
    by code_simp
  have h3: "scan_cnv (add_row_ids ex_a) = Inr (projr (scan_cnv (add_row_ids ex_a)))"
    by code_simp
  have h4: "0 < nrows ex_bad" by code_simp
  have h5: "End (projr (scan_cnv (add_row_ids ex_bad)) ! 0)
              \<le> Start (projr (scan_cnv (add_row_ids ex_bad)) ! 0)" by code_simp
  from invalid_record_flag_zero [OF h1 h2 h3] h4 h5
  have "cell_at (out_a (projr (main ex_bad ex_a))) ''CNV_based_overlap'' 0 = Some (IntC 0)"
    by blast
  with h1 h2 h3 h4 h5 show ?thesis by (intro conjI) assumption+
qed



end
